theory Spec2Isabelle
  imports Main
begin

section \<open>The notebook lux\_review.ipynb: data model\<close>

text \<open>
  The code cells of the notebook act on one variable \<^verbatim>\<open>df\<close>; their statements are:
  \<^verbatim>\<open>
  df = pd.read_csv("ai4i2020.csv")
  df.drop(columns=["Product ID", "TWF","HDF","PWF","OSF","RNF","UDI"], inplace=True)
  df = df.rename(columns={'Air temperature [K]': 'Air temperature (K)',
                          'Process temperature [K]': 'Process temperature (K)',
                          'Rotational speed [rpm]': 'Rotational speed (rpm)',
                          'Torque [Nm]': 'Torque (Nm)',
                          'Tool wear [min]': 'Tool wear (min)', })
  df.intent = ["Type"]
  df.intent = ["Machine failure"]
  \<close>
  The calls \<^verbatim>\<open>drop\<close> and \<^verbatim>\<open>rename\<close> are methods of pandas.DataFrame. They are
  embedded with the behaviour pandas documents for them, and their keyword argument
  \<^verbatim>\<open>errors\<close> is kept as a parameter, because the notebook leaves it at its default in
  both calls: the default of \<^verbatim>\<open>drop\<close> is \<^verbatim>\<open>errors='raise'\<close>, the default of
  \<^verbatim>\<open>rename\<close> is \<^verbatim>\<open>errors='ignore'\<close>.
\<close>

datatype py_error = KeyError "string list" | NameError

datatype errors_mode = Raise | Ignore

text \<open>
  A data frame: the columns in their order, each a label with its cells (row order is the
  order of the cells), the row labels, and the list of names that Lux keeps as the
  attribute \<^verbatim>\<open>intent\<close>. Labels may repeat, as they may in pandas.
\<close>

record 'a dataframe =
  columns :: "(string \<times> 'a list) list"
  index :: "nat list"
  intent :: "string list"

definition labels :: "'a dataframe \<Rightarrow> string list" where
  "labels t = map fst (columns t)"

definition cells :: "'a dataframe \<Rightarrow> 'a list list" where
  "cells t = map snd (columns t)"

definition nrows :: "'a dataframe \<Rightarrow> nat" where
  "nrows t = length (index t)"

text \<open>The labels of a request that the frame does not have, in the order of the request.\<close>

definition missing_labels :: "string list \<Rightarrow> 'a dataframe \<Rightarrow> string list" where
  "missing_labels ls t = filter (\<lambda>l. l \<notin> set (labels t)) ls"

subsection \<open>pandas: DataFrame.drop(columns=ls, errors=...)\<close>

text \<open>
  With \<^verbatim>\<open>errors='raise'\<close> a requested label that is not a column raises KeyError and
  nothing is dropped; otherwise every column whose label is requested is removed.
  The KeyError carries the missing labels, which is what pandas reports when the labels of
  the frame are distinct, as they are in every frame \<^verbatim>\<open>read_csv\<close> returns; when a label
  of the frame repeats, pandas reports the whole request instead. Whether the call raises,
  and the frame it returns, are the same in both cases.
\<close>

definition drop_columns ::
  "string list \<Rightarrow> errors_mode \<Rightarrow> 'a dataframe \<Rightarrow> py_error + 'a dataframe" where
  "drop_columns ls errors t =
     (if errors = Raise \<and> missing_labels ls t \<noteq> [] then Inl (KeyError (missing_labels ls t))
      else Inr (t\<lparr>columns := filter (\<lambda>c. fst c \<notin> set ls) (columns t)\<rparr>))"

subsection \<open>pandas: DataFrame.rename(columns=mapper, errors=...)\<close>

text \<open>
  The dict becomes the function that sends a key to its value and leaves every other
  label alone; it is applied to each column label. Only \<^verbatim>\<open>errors='raise'\<close> checks that
  the keys are labels of the frame. The keys of the notebook's dict literal are distinct.
\<close>

definition rename_function :: "(string \<times> string) list \<Rightarrow> string \<Rightarrow> string" where
  "rename_function mapper x = (case map_of mapper x of Some y \<Rightarrow> y | None \<Rightarrow> x)"

definition rename_columns ::
  "(string \<times> string) list \<Rightarrow> errors_mode \<Rightarrow> 'a dataframe \<Rightarrow> py_error + 'a dataframe" where
  "rename_columns mapper errors t =
     (if errors = Raise \<and> missing_labels (map fst mapper) t \<noteq> []
      then Inl (KeyError (missing_labels (map fst mapper) t))
      else Inr (t\<lparr>columns := map (\<lambda>c. (rename_function mapper (fst c), snd c)) (columns t)\<rparr>))"

subsection \<open>The arguments the notebook passes\<close>

definition drop_labels :: "string list" where
  "drop_labels = [''Product ID'', ''TWF'', ''HDF'', ''PWF'', ''OSF'', ''RNF'', ''UDI'']"

definition rename_mapper :: "(string \<times> string) list" where
  "rename_mapper =
     [(''Air temperature [K]'', ''Air temperature (K)''),
      (''Process temperature [K]'', ''Process temperature (K)''),
      (''Rotational speed [rpm]'', ''Rotational speed (rpm)''),
      (''Torque [Nm]'', ''Torque (Nm)''),
      (''Tool wear [min]'', ''Tool wear (min)'')]"

definition old_names :: "string list" where
  "old_names = map fst rename_mapper"

definition new_names :: "string list" where
  "new_names = map snd rename_mapper"

definition intent_type :: "string list" where
  "intent_type = [''Type'']"

definition intent_failure :: "string list" where
  "intent_failure = [''Machine failure'']"

text \<open>The two calls as the notebook makes them, \<^verbatim>\<open>errors\<close> at its default.\<close>

definition nb_drop :: "'a dataframe \<Rightarrow> py_error + 'a dataframe" where
  "nb_drop t = drop_columns drop_labels Raise t"

definition nb_rename :: "'a dataframe \<Rightarrow> py_error + 'a dataframe" where
  "nb_rename t = rename_columns rename_mapper Ignore t"

text \<open>Sequencing of two steps, the second skipped when the first raised.\<close>

definition and_then :: "'e + 'a \<Rightarrow> ('a \<Rightarrow> 'e + 'b) \<Rightarrow> 'e + 'b" where
  "and_then r f = (case r of Inl e \<Rightarrow> Inl e | Inr x \<Rightarrow> f x)"

subsection \<open>The cells, on a store of objects\<close>

text \<open>
  The kernel's state: the data frames that exist, addressed by their position, and the
  address the variable \<^verbatim>\<open>df\<close> is bound to. \<^verbatim>\<open>drop(..., inplace=True)\<close> writes its
  result over the object \<^verbatim>\<open>df\<close> refers to. \<^verbatim>\<open>df = df.rename(...)\<close> has no
  \<^verbatim>\<open>inplace\<close>: the call builds a new object, and the assignment binds \<^verbatim>\<open>df\<close> to it.
  \<^verbatim>\<open>df.intent = xs\<close> sets an attribute of the object \<^verbatim>\<open>df\<close> refers to. The setter
  belongs to Lux and is outside the notebook: it also parses the list (an entry such as
  \<^verbatim>\<open>Type=L\<close> is read as a filter, not kept as a name) and warns of names that are no
  column. The model keeps the list as it is given, which is what happens to plain column
  names such as the two the notebook assigns; the columns, cells and rows are untouched
  either way.
\<close>

record 'a notebook =
  objects :: "'a dataframe list"
  var_df :: nat

definition deref :: "'a notebook \<Rightarrow> 'a dataframe option" where
  "deref s = (if var_df s < length (objects s) then Some (objects s ! var_df s) else None)"

text \<open>
  \<^verbatim>\<open>pd.read_csv\<close> parses the file into a new frame; the parsed file is the argument
  here, the file itself not being part of the sources.
\<close>

definition cell_read_csv :: "'a dataframe \<Rightarrow> 'a notebook" where
  "cell_read_csv file = \<lparr>objects = [file], var_df = 0\<rparr>"

definition cell_drop :: "'a notebook \<Rightarrow> py_error + 'a notebook" where
  "cell_drop s =
     (case deref s of
        None \<Rightarrow> Inl NameError
      | Some t \<Rightarrow>
          (case nb_drop t of
             Inl e \<Rightarrow> Inl e
           | Inr t' \<Rightarrow> Inr (s\<lparr>objects := (objects s)[var_df s := t']\<rparr>)))"

definition cell_rename :: "'a notebook \<Rightarrow> py_error + 'a notebook" where
  "cell_rename s =
     (case deref s of
        None \<Rightarrow> Inl NameError
      | Some t \<Rightarrow>
          (case nb_rename t of
             Inl e \<Rightarrow> Inl e
           | Inr t' \<Rightarrow> Inr (s\<lparr>objects := objects s @ [t'], var_df := length (objects s)\<rparr>)))"

definition cell_intent :: "string list \<Rightarrow> 'a notebook \<Rightarrow> py_error + 'a notebook" where
  "cell_intent xs s =
     (case deref s of
        None \<Rightarrow> Inl NameError
      | Some t \<Rightarrow> Inr (s\<lparr>objects := (objects s)[var_df s := t\<lparr>intent := xs\<rparr>]\<rparr>))"

text \<open>
  Modelled from the spec: the header of \<^verbatim>\<open>ai4i2020.csv\<close>, a file that is not among the
  sources. The spec gives the file 14 columns; their names are the seven the drop cell
  lists, the five keys of the rename cell and the two names of the intent cells.
\<close>

definition ai4i_header :: "string list" where
  "ai4i_header =
     [''UDI'', ''Product ID'', ''Type'', ''Air temperature [K]'', ''Process temperature [K]'',
      ''Rotational speed [rpm]'', ''Torque [Nm]'', ''Tool wear [min]'', ''Machine failure'',
      ''TWF'', ''HDF'', ''PWF'', ''OSF'', ''RNF'']"

definition has_bracket :: "string \<Rightarrow> bool" where
  "has_bracket n = (CHR ''['' \<in> set n \<or> CHR '']'' \<in> set n)"

text \<open>
  Small frames: one with the header of the file, one without most of its columns, and
  the first after the drop and after the rename.
\<close>

definition ex_file :: "nat dataframe" where
  "ex_file = \<lparr>columns = map (\<lambda>l. (l, [1, 2])) ai4i_header, index = [0, 1], intent = []\<rparr>"

definition ex_no_torque :: "nat dataframe" where
  "ex_no_torque = \<lparr>columns = [(''Type'', [7]), (''Tool wear [min]'', [8])], index = [0], intent = []\<rparr>"

definition ex_dropped :: "nat dataframe" where
  "ex_dropped =
     \<lparr>columns = [(''Type'', [1, 2]), (''Air temperature [K]'', [1, 2]),
                 (''Process temperature [K]'', [1, 2]), (''Rotational speed [rpm]'', [1, 2]),
                 (''Torque [Nm]'', [1, 2]), (''Tool wear [min]'', [1, 2]),
                 (''Machine failure'', [1, 2])],
      index = [0, 1], intent = []\<rparr>"

definition ex_renamed :: "nat dataframe" where
  "ex_renamed =
     \<lparr>columns = [(''Type'', [1, 2]), (''Air temperature (K)'', [1, 2]),
                 (''Process temperature (K)'', [1, 2]), (''Rotational speed (rpm)'', [1, 2]),
                 (''Torque (Nm)'', [1, 2]), (''Tool wear (min)'', [1, 2]),
                 (''Machine failure'', [1, 2])],
      index = [0, 1], intent = []\<rparr>"

text \<open>A file of 10000 rows with the header of the data set.\<close>

definition range_index :: "nat \<Rightarrow> nat list" where
  "range_index n = [0..<n]"

definition ex_big :: "nat dataframe" where
  "ex_big = \<lparr>columns = map (\<lambda>l. (l, replicate 10000 0)) ai4i_header,
      index = range_index 10000, intent = []\<rparr>"

section \<open>Properties\<close>

lemma missing_labels_Nil: "missing_labels ls t = [] \<longleftrightarrow> set ls \<subseteq> set (labels t)"
  by (auto simp: missing_labels_def filter_empty_conv)

lemma labels_filter:
  "labels (t\<lparr>columns := filter (\<lambda>c. fst c \<notin> S) (columns t)\<rparr>) = filter (\<lambda>l. l \<notin> S) (labels t)"
  by (simp add: labels_def filter_map comp_def)

lemma rename_function_unmapped:
  "x \<notin> set old_names \<Longrightarrow> rename_function rename_mapper x = x"
  by (simp add: rename_function_def rename_mapper_def old_names_def)

lemma rename_function_not_old:
  "rename_function rename_mapper x \<notin> set old_names"
  by (simp add: rename_function_def rename_mapper_def old_names_def)

lemma rename_function_idem:
  "rename_function rename_mapper (rename_function rename_mapper x) = rename_function rename_mapper x"
  by (simp add: rename_function_unmapped rename_function_not_old)

lemma rename_function_mapped:
  "(k, v) \<in> set rename_mapper \<Longrightarrow> rename_function rename_mapper k = v"
  by (auto simp: rename_function_def rename_mapper_def)

lemma rename_function_drop_labels:
  "rename_function rename_mapper x \<in> set drop_labels \<longleftrightarrow> x \<in> set drop_labels"
  by (simp add: rename_function_def rename_mapper_def drop_labels_def)

lemma labels_rename:
  "labels (t\<lparr>columns := map (\<lambda>c. (f (fst c), snd c)) (columns t)\<rparr>) = map f (labels t)"
  by (simp add: labels_def comp_def)

lemma nb_rename_eq:
  "nb_rename t = Inr (t\<lparr>columns := map (\<lambda>c. (rename_function rename_mapper (fst c), snd c)) (columns t)\<rparr>)"
  by (simp add: nb_rename_def rename_columns_def)

lemma deref_read_csv: "deref (cell_read_csv f) = Some f"
  by (simp add: deref_def cell_read_csv_def)

lemma deref_SomeD: "deref s = Some t \<Longrightarrow> var_df s < length (objects s) \<and> objects s ! var_df s = t"
  by (auto simp: deref_def split: if_splits)

lemma deref_overwrite:
  "deref s = Some t \<Longrightarrow> deref (s\<lparr>objects := (objects s)[var_df s := t']\<rparr>) = Some t'"
  by (auto simp: deref_def split: if_splits)

lemma deref_new_object:
  "deref (s\<lparr>objects := objects s @ [t'], var_df := length (objects s)\<rparr>) = Some t'"
  by (simp add: deref_def)

lemma cell_drop_eq:
  "deref s = Some t \<Longrightarrow> nb_drop t = Inr t' \<Longrightarrow>
   cell_drop s = Inr (s\<lparr>objects := (objects s)[var_df s := t']\<rparr>)"
  by (simp add: cell_drop_def)

lemma cell_rename_eq:
  "deref s = Some t \<Longrightarrow> nb_rename t = Inr t' \<Longrightarrow>
   cell_rename s = Inr (s\<lparr>objects := objects s @ [t'], var_df := length (objects s)\<rparr>)"
  by (simp add: cell_rename_def)

lemma cell_intent_eq:
  "deref s = Some t \<Longrightarrow>
   cell_intent xs s = Inr (s\<lparr>objects := (objects s)[var_df s := t\<lparr>intent := xs\<rparr>]\<rparr>)"
  by (simp add: cell_intent_def)

lemma kept_labels:
  "set ai4i_header - set drop_labels =
     {''Type'', ''Air temperature [K]'', ''Process temperature [K]'', ''Rotational speed [rpm]'',
      ''Torque [Nm]'', ''Tool wear [min]'', ''Machine failure''}"
  by (simp add: ai4i_header_def drop_labels_def insert_Diff_if)

lemma card_kept_labels: "card (set ai4i_header - set drop_labels) = 7"
  by (simp add: kept_labels)

lemma renamed_kept_labels:
  "rename_function rename_mapper ` (set ai4i_header - set drop_labels) =
     {''Type'', ''Air temperature (K)'', ''Process temperature (K)'', ''Rotational speed (rpm)'',
      ''Torque (Nm)'', ''Tool wear (min)'', ''Machine failure''}"
  by (simp add: kept_labels rename_function_def rename_mapper_def)

lemma no_bracket_after_rename:
  "n \<in> rename_function rename_mapper ` (set ai4i_header - set drop_labels) \<Longrightarrow> \<not> has_bracket n"
  unfolding renamed_kept_labels by (auto simp: has_bracket_def)

lemma drop_labels_in_header: "set drop_labels \<subseteq> set ai4i_header"
  by (simp add: drop_labels_def ai4i_header_def)

text \<open>
  C5. The drop of the notebook raises, and returns no table, whenever at least one of its
  seven labels is not a column of the table: the error is the KeyError that lists the
  missing labels.
\<close>

theorem drop_raises_when_label_absent:
  assumes "\<not> set drop_labels \<subseteq> set (labels t)"
  shows "nb_drop t = Inl (KeyError (missing_labels drop_labels t))
         \<and> missing_labels drop_labels t \<noteq> []
         \<and> (\<forall>t'. nb_drop t \<noteq> Inr t')"
  using assms by (simp add: nb_drop_def drop_columns_def missing_labels_Nil)

theorem drop_raises_when_label_absent_witness:
  "\<not> set drop_labels \<subseteq> set (labels ex_no_torque)
   \<and> nb_drop ex_no_torque = Inl (KeyError drop_labels)"
proof -
  have h: "\<not> set drop_labels \<subseteq> set (labels ex_no_torque)"
    by (simp add: drop_labels_def labels_def ex_no_torque_def)
  have m: "missing_labels drop_labels ex_no_torque = drop_labels"
    by (simp add: missing_labels_def drop_labels_def labels_def ex_no_torque_def)
  show ?thesis
    using h drop_raises_when_label_absent [OF h] by (simp add: m)
qed

text \<open>
  C2. For every table whose columns include the seven labels, the drop returns a table
  whose set of column labels is the original set minus exactly those seven; the columns
  kept stay in their order, with their cells, and the rows are the same.
\<close>

theorem drop_column_set:
  assumes "set drop_labels \<subseteq> set (labels t)"
  shows "\<exists>t'. nb_drop t = Inr t'
           \<and> set (labels t') = set (labels t) - set drop_labels
           \<and> columns t' = filter (\<lambda>c. fst c \<notin> set drop_labels) (columns t)
           \<and> index t' = index t"
proof -
  have "missing_labels drop_labels t = []"
    using assms by (simp add: missing_labels_Nil)
  then have "nb_drop t = Inr (t\<lparr>columns := filter (\<lambda>c. fst c \<notin> set drop_labels) (columns t)\<rparr>)"
    by (simp add: nb_drop_def drop_columns_def)
  moreover have "set (labels (t\<lparr>columns := filter (\<lambda>c. fst c \<notin> set drop_labels) (columns t)\<rparr>))
      = set (labels t) - set drop_labels"
    by (auto simp: labels_filter)
  ultimately show ?thesis by simp
qed

theorem drop_column_set_witness:
  "set drop_labels \<subseteq> set (labels ex_file)
   \<and> (\<exists>t'. nb_drop ex_file = Inr t'
         \<and> set (labels t') = set (labels ex_file) - set drop_labels)"
proof -
  have h: "set drop_labels \<subseteq> set (labels ex_file)"
    by (simp add: drop_labels_def labels_def ex_file_def ai4i_header_def)
  show ?thesis
    using h drop_column_set [OF h] by blast
qed

text \<open>
  C3. For every table whose columns include the five old names, the rename returns a table
  in which no old name is a column label and every new name is one. Column by column, in
  place: a column labelled with an old name carries the new name that corresponds to it
  (Air temperature [K] becomes Air temperature (K), and so on for the five), every other
  column keeps its label, and each column keeps its cells. The number and order of the
  columns, the row labels and so the row order are unchanged.
\<close>

theorem rename_old_absent_new_present:
  assumes "set old_names \<subseteq> set (labels t)"
  shows "\<exists>t'. nb_rename t = Inr t'
           \<and> old_names = [''Air temperature [K]'', ''Process temperature [K]'',
                 ''Rotational speed [rpm]'', ''Torque [Nm]'', ''Tool wear [min]'']
           \<and> new_names = [''Air temperature (K)'', ''Process temperature (K)'',
                 ''Rotational speed (rpm)'', ''Torque (Nm)'', ''Tool wear (min)'']
           \<and> (\<forall>k \<in> set old_names. k \<notin> set (labels t'))
           \<and> (\<forall>v \<in> set new_names. v \<in> set (labels t'))
           \<and> length (columns t') = length (columns t)
           \<and> (\<forall>i < length (columns t).
                 (labels t ! i = ''Air temperature [K]'' \<longrightarrow> labels t' ! i = ''Air temperature (K)'')
               \<and> (labels t ! i = ''Process temperature [K]''
                    \<longrightarrow> labels t' ! i = ''Process temperature (K)'')
               \<and> (labels t ! i = ''Rotational speed [rpm]''
                    \<longrightarrow> labels t' ! i = ''Rotational speed (rpm)'')
               \<and> (labels t ! i = ''Torque [Nm]'' \<longrightarrow> labels t' ! i = ''Torque (Nm)'')
               \<and> (labels t ! i = ''Tool wear [min]'' \<longrightarrow> labels t' ! i = ''Tool wear (min)'')
               \<and> (labels t ! i \<notin> set old_names \<longrightarrow> labels t' ! i = labels t ! i)
               \<and> snd (columns t' ! i) = snd (columns t ! i))
           \<and> cells t' = cells t
           \<and> index t' = index t"
proof -
  let ?f = "rename_function rename_mapper"
  let ?t' = "t\<lparr>columns := map (\<lambda>c. (?f (fst c), snd c)) (columns t)\<rparr>"
  have lab: "labels ?t' = map ?f (labels t)"
    by (rule labels_rename)
  have len: "length (labels t) = length (columns t)"
    by (simp add: labels_def)
  have lit: "old_names = [''Air temperature [K]'', ''Process temperature [K]'',
                 ''Rotational speed [rpm]'', ''Torque [Nm]'', ''Tool wear [min]'']"
    "new_names = [''Air temperature (K)'', ''Process temperature (K)'',
                 ''Rotational speed (rpm)'', ''Torque (Nm)'', ''Tool wear (min)'']"
    by (simp_all add: old_names_def new_names_def rename_mapper_def)
  have f: "?f ''Air temperature [K]'' = ''Air temperature (K)''"
    "?f ''Process temperature [K]'' = ''Process temperature (K)''"
    "?f ''Rotational speed [rpm]'' = ''Rotational speed (rpm)''"
    "?f ''Torque [Nm]'' = ''Torque (Nm)''"
    "?f ''Tool wear [min]'' = ''Tool wear (min)''"
    by (simp_all add: rename_function_def rename_mapper_def)
  have old: "\<forall>k \<in> set old_names. k \<notin> set (labels ?t')"
    using rename_function_not_old by (auto simp: lab)
  have new: "\<forall>v \<in> set new_names. v \<in> set (labels ?t')"
  proof
    fix v assume "v \<in> set new_names"
    then obtain k where kv: "(k, v) \<in> set rename_mapper"
      by (auto simp: new_names_def)
    then have "k \<in> set old_names"
      by (force simp: old_names_def)
    with assms have "k \<in> set (labels t)" by blast
    then have "?f k \<in> set (labels ?t')"
      by (simp add: lab)
    with kv show "v \<in> set (labels ?t')"
      by (simp add: rename_function_mapped)
  qed
  have pos: "\<forall>i < length (columns t).
                 (labels t ! i = ''Air temperature [K]'' \<longrightarrow> labels ?t' ! i = ''Air temperature (K)'')
               \<and> (labels t ! i = ''Process temperature [K]''
                    \<longrightarrow> labels ?t' ! i = ''Process temperature (K)'')
               \<and> (labels t ! i = ''Rotational speed [rpm]''
                    \<longrightarrow> labels ?t' ! i = ''Rotational speed (rpm)'')
               \<and> (labels t ! i = ''Torque [Nm]'' \<longrightarrow> labels ?t' ! i = ''Torque (Nm)'')
               \<and> (labels t ! i = ''Tool wear [min]'' \<longrightarrow> labels ?t' ! i = ''Tool wear (min)'')
               \<and> (labels t ! i \<notin> set old_names \<longrightarrow> labels ?t' ! i = labels t ! i)
               \<and> snd (columns ?t' ! i) = snd (columns t ! i)"
  proof (intro allI impI)
    fix i assume i: "i < length (columns t)"
    then have n: "labels ?t' ! i = ?f (labels t ! i)"
      by (simp only: lab len nth_map)
    have c: "snd (columns ?t' ! i) = snd (columns t ! i)"
      using i by simp
    show "(labels t ! i = ''Air temperature [K]'' \<longrightarrow> labels ?t' ! i = ''Air temperature (K)'')
               \<and> (labels t ! i = ''Process temperature [K]''
                    \<longrightarrow> labels ?t' ! i = ''Process temperature (K)'')
               \<and> (labels t ! i = ''Rotational speed [rpm]''
                    \<longrightarrow> labels ?t' ! i = ''Rotational speed (rpm)'')
               \<and> (labels t ! i = ''Torque [Nm]'' \<longrightarrow> labels ?t' ! i = ''Torque (Nm)'')
               \<and> (labels t ! i = ''Tool wear [min]'' \<longrightarrow> labels ?t' ! i = ''Tool wear (min)'')
               \<and> (labels t ! i \<notin> set old_names \<longrightarrow> labels ?t' ! i = labels t ! i)
               \<and> snd (columns ?t' ! i) = snd (columns t ! i)"
      using c by (simp add: n f rename_function_unmapped)
  qed
  have cel: "cells ?t' = cells t"
    by (simp add: cells_def comp_def)
  have "nb_rename t = Inr ?t'"
    by (rule nb_rename_eq)
  moreover have "length (columns ?t') = length (columns t)" "index ?t' = index t"
    by simp_all
  ultimately show ?thesis
    using lit old new pos cel by (intro exI [of _ ?t'] conjI)
qed


theorem rename_old_absent_new_present_witness:
  "set old_names \<subseteq> set (labels ex_file)
   \<and> (\<exists>t'. nb_rename ex_file = Inr t'
         \<and> (\<forall>k \<in> set old_names. k \<notin> set (labels t'))
         \<and> (\<forall>v \<in> set new_names. v \<in> set (labels t'))
         \<and> labels ex_file ! 6 = ''Torque [Nm]'' \<and> labels t' ! 6 = ''Torque (Nm)''
         \<and> labels ex_file ! 2 = ''Type'' \<and> labels t' ! 2 = ''Type''
         \<and> cells t' = cells ex_file \<and> index t' = index ex_file)"
proof -
  have "map fst (columns ex_file) = ai4i_header"
    unfolding ex_file_def by (simp add: comp_def)
  then have l: "labels ex_file = ai4i_header"
    by (simp only: labels_def)
  have h: "set old_names \<subseteq> set (labels ex_file)"
    unfolding l by (simp add: old_names_def rename_mapper_def ai4i_header_def)
  have n: "length (columns ex_file) = 14"
    by (simp add: ex_file_def ai4i_header_def)
  have l6: "labels ex_file ! 6 = ''Torque [Nm]''" and l2: "labels ex_file ! 2 = ''Type''"
    unfolding l by (simp_all add: ai4i_header_def)
  have o: "''Type'' \<notin> set old_names"
    by (simp add: old_names_def rename_mapper_def)
  have "\<exists>t'. nb_rename ex_file = Inr t'
         \<and> (\<forall>k \<in> set old_names. k \<notin> set (labels t'))
         \<and> (\<forall>v \<in> set new_names. v \<in> set (labels t'))
         \<and> labels ex_file ! 6 = ''Torque [Nm]'' \<and> labels t' ! 6 = ''Torque (Nm)''
         \<and> labels ex_file ! 2 = ''Type'' \<and> labels t' ! 2 = ''Type''
         \<and> cells t' = cells ex_file \<and> index t' = index ex_file"
    using rename_old_absent_new_present [OF h]
  proof (elim exE conjE)
    fix t'
    assume r: "nb_rename ex_file = Inr t'"
      and old: "\<forall>k \<in> set old_names. k \<notin> set (labels t')"
      and new: "\<forall>v \<in> set new_names. v \<in> set (labels t')"
      and pos: "\<forall>i < length (columns ex_file).
                 (labels ex_file ! i = ''Air temperature [K]''
                    \<longrightarrow> labels t' ! i = ''Air temperature (K)'')
               \<and> (labels ex_file ! i = ''Process temperature [K]''
                    \<longrightarrow> labels t' ! i = ''Process temperature (K)'')
               \<and> (labels ex_file ! i = ''Rotational speed [rpm]''
                    \<longrightarrow> labels t' ! i = ''Rotational speed (rpm)'')
               \<and> (labels ex_file ! i = ''Torque [Nm]'' \<longrightarrow> labels t' ! i = ''Torque (Nm)'')
               \<and> (labels ex_file ! i = ''Tool wear [min]'' \<longrightarrow> labels t' ! i = ''Tool wear (min)'')
               \<and> (labels ex_file ! i \<notin> set old_names \<longrightarrow> labels t' ! i = labels ex_file ! i)
               \<and> snd (columns t' ! i) = snd (columns ex_file ! i)"
      and c: "cells t' = cells ex_file" and ix: "index t' = index ex_file"
    have i6: "6 < length (columns ex_file)" and i2: "2 < length (columns ex_file)"
      by (simp_all add: n)
    note p6 = pos [rule_format, OF i6]
    note p2 = pos [rule_format, OF i2]
    have t6: "labels t' ! 6 = ''Torque (Nm)''"
      using p6 [THEN conjunct2, THEN conjunct2, THEN conjunct2, THEN conjunct1] l6
      by (rule mp)
    have "labels ex_file ! 2 \<notin> set old_names"
      unfolding l2 by (rule o)
    with p2 [THEN conjunct2, THEN conjunct2, THEN conjunct2, THEN conjunct2, THEN conjunct2,
        THEN conjunct1]
    have "labels t' ! 2 = labels ex_file ! 2"
      by (rule mp)
    then have t2: "labels t' ! 2 = ''Type''"
      by (simp only: l2)
    from r old new l6 t6 l2 t2 c ix show ?thesis
      by (intro exI conjI)
  qed
  with h show ?thesis
    by (intro conjI)
qed

text \<open>
  C4, as stated, fails: the rename is called with \<^verbatim>\<open>errors\<close> at its default
  \<^verbatim>\<open>'ignore'\<close>. On a table without the column \<^verbatim>\<open>Torque [Nm]\<close> it raises nothing and
  returns the table with the one key that is present renamed.
\<close>

theorem rename_absent_key_counterexample:
  "''Torque [Nm]'' \<in> set old_names
   \<and> ''Torque [Nm]'' \<notin> set (labels ex_no_torque)
   \<and> nb_rename ex_no_torque
       = Inr \<lparr>columns = [(''Type'', [7]), (''Tool wear (min)'', [8])], index = [0], intent = []\<rparr>"
  by (simp add: old_names_def rename_mapper_def labels_def ex_no_torque_def nb_rename_def
      rename_columns_def rename_function_def)

text \<open>
  C4, amended. The rename of the notebook never raises: for every table it returns a table
  with as many columns, in which a column whose label is a key of the mapping carries the
  key's new name, every other column keeps its label, and cells and row labels are
  unchanged. Keys that are not labels of the table are ignored.
\<close>

theorem rename_never_raises:
  "\<exists>t'. nb_rename t = Inr t'
     \<and> length (columns t') = length (columns t)
     \<and> (\<forall>i < length (columns t).
           (\<forall>k v. (k, v) \<in> set rename_mapper \<and> labels t ! i = k \<longrightarrow> labels t' ! i = v)
         \<and> (labels t ! i \<notin> set old_names \<longrightarrow> labels t' ! i = labels t ! i))
     \<and> cells t' = cells t
     \<and> index t' = index t"
proof -
  let ?t' = "t\<lparr>columns := map (\<lambda>c. (rename_function rename_mapper (fst c), snd c)) (columns t)\<rparr>"
  have lab: "labels ?t' = map (rename_function rename_mapper) (labels t)"
    by (rule labels_rename)
  have len: "length (labels t) = length (columns t)"
    by (simp add: labels_def)
  have "\<forall>i < length (columns t).
           (\<forall>k v. (k, v) \<in> set rename_mapper \<and> labels t ! i = k \<longrightarrow> labels ?t' ! i = v)
         \<and> (labels t ! i \<notin> set old_names \<longrightarrow> labels ?t' ! i = labels t ! i)"
    by (auto simp: lab len rename_function_mapped rename_function_unmapped)
  moreover have "cells ?t' = cells t"
    by (simp add: cells_def comp_def)
  ultimately show ?thesis
    by (simp add: nb_rename_eq)
qed

theorem rename_never_raises_witness:
  "\<exists>t'. nb_rename ex_no_torque = Inr t'
     \<and> labels t' = [''Type'', ''Tool wear (min)'']
     \<and> cells t' = cells ex_no_torque"
proof -
  have l: "labels ex_no_torque = [''Type'', ''Tool wear [min]'']"
    by (simp add: labels_def ex_no_torque_def)
  have n: "length (columns ex_no_torque) = 2"
    by (simp add: ex_no_torque_def)
  have o: "''Type'' \<notin> set old_names"
    by (simp add: old_names_def rename_mapper_def)
  have m: "(''Tool wear [min]'', ''Tool wear (min)'') \<in> set rename_mapper"
    by (simp add: rename_mapper_def)
  obtain t' where r: "nb_rename ex_no_torque = Inr t'"
    and len: "length (columns t') = length (columns ex_no_torque)"
    and each: "\<forall>i < length (columns ex_no_torque).
           (\<forall>k v. (k, v) \<in> set rename_mapper \<and> labels ex_no_torque ! i = k \<longrightarrow> labels t' ! i = v)
         \<and> (labels ex_no_torque ! i \<notin> set old_names \<longrightarrow> labels t' ! i = labels ex_no_torque ! i)"
    and c: "cells t' = cells ex_no_torque"
    using rename_never_raises [of ex_no_torque] by blast
  have "labels t' ! 0 = ''Type''"
    using each o by (simp add: l n)
  moreover have "labels t' ! 1 = ''Tool wear (min)''"
    using each m by (simp add: l n)
  moreover have "length (labels t') = 2"
    using len by (simp add: labels_def n)
  ultimately have "labels t' = [''Type'', ''Tool wear (min)'']"
    by (simp add: list_eq_iff_nth_eq nth_Cons' less_Suc_eq numeral_2_eq_2)
  with r c show ?thesis by blast
qed

text \<open>
  C8. The rename is idempotent: no new name is a key of the mapping, and for every table
  renaming the renamed table returns it unchanged, so that two renames in sequence give
  what one gives.
\<close>

theorem rename_idempotent:
  "\<exists>t'. nb_rename t = Inr t' \<and> nb_rename t' = Inr t'
     \<and> and_then (nb_rename t) nb_rename = nb_rename t
     \<and> set new_names \<inter> set old_names = {}"
proof -
  let ?t' = "t\<lparr>columns := map (\<lambda>c. (rename_function rename_mapper (fst c), snd c)) (columns t)\<rparr>"
  have "nb_rename ?t' = Inr ?t'"
    by (simp add: nb_rename_eq comp_def rename_function_idem)
  moreover have "set new_names \<inter> set old_names = {}"
    by (simp add: new_names_def old_names_def rename_mapper_def)
  ultimately show ?thesis
    by (simp add: nb_rename_eq [of t] and_then_def)
qed

theorem rename_idempotent_witness:
  "nb_rename ex_dropped = Inr ex_renamed \<and> nb_rename ex_renamed = Inr ex_renamed"
proof -
  have r: "nb_rename ex_dropped = Inr ex_renamed"
    by (simp add: nb_rename_def rename_columns_def rename_function_def rename_mapper_def
        ex_dropped_def ex_renamed_def)
  obtain t' where "nb_rename ex_dropped = Inr t'" and "nb_rename t' = Inr t'"
    using rename_idempotent [of ex_dropped] by blast
  with r show ?thesis by simp
qed

text \<open>
  C9. Drop and rename commute: the seven dropped labels are disjoint from the five old
  names and from the five new names, and for every table rename followed by drop gives
  the result of drop followed by rename (the same table, or the same KeyError when one of
  the seven labels is missing).
\<close>

theorem drop_rename_commute:
  "and_then (nb_rename t) nb_drop = and_then (nb_drop t) nb_rename
   \<and> set drop_labels \<inter> set old_names = {}
   \<and> set drop_labels \<inter> set new_names = {}"
proof -
  let ?f = "rename_function rename_mapper"
  let ?t' = "t\<lparr>columns := map (\<lambda>c. (?f (fst c), snd c)) (columns t)\<rparr>"
  have lab: "labels ?t' = map ?f (labels t)"
    by (rule labels_rename)
  have mem: "l \<in> set (map ?f (labels t)) \<longleftrightarrow> l \<in> set (labels t)" if "l \<in> set drop_labels" for l
  proof
    assume "l \<in> set (map ?f (labels t))"
    then obtain x where x: "x \<in> set (labels t)" "l = ?f x" by auto
    with that have "x \<in> set drop_labels"
      by (simp add: rename_function_drop_labels)
    then have "x \<notin> set old_names"
      by (auto simp: drop_labels_def old_names_def rename_mapper_def)
    with x show "l \<in> set (labels t)"
      by (simp add: rename_function_unmapped)
  next
    assume l: "l \<in> set (labels t)"
    from that have "l \<notin> set old_names"
      by (auto simp: drop_labels_def old_names_def rename_mapper_def)
    then have "?f l = l" by (rule rename_function_unmapped)
    with l show "l \<in> set (map ?f (labels t))" by force
  qed
  have miss: "missing_labels drop_labels ?t' = missing_labels drop_labels t"
    unfolding missing_labels_def lab
    by (rule filter_cong) (use mem in auto)
  have cols: "filter (\<lambda>c. fst c \<notin> set drop_labels) (map (\<lambda>c. (?f (fst c), snd c)) (columns t))
      = map (\<lambda>c. (?f (fst c), snd c)) (filter (\<lambda>c. fst c \<notin> set drop_labels) (columns t))"
    by (simp add: filter_map comp_def rename_function_drop_labels)
  have "and_then (nb_rename t) nb_drop = and_then (nb_drop t) nb_rename"
    by (simp add: nb_rename_eq and_then_def nb_drop_def drop_columns_def miss cols)
  moreover have "set drop_labels \<inter> set old_names = {}"
    by (simp add: drop_labels_def old_names_def rename_mapper_def)
  moreover have "set drop_labels \<inter> set new_names = {}"
    by (simp add: drop_labels_def new_names_def rename_mapper_def)
  ultimately show ?thesis by simp
qed

theorem drop_rename_commute_witness:
  "and_then (nb_rename ex_file) nb_drop = Inr ex_renamed
   \<and> and_then (nb_drop ex_file) nb_rename = Inr ex_renamed
   \<and> and_then (nb_rename ex_no_torque) nb_drop = Inl (KeyError drop_labels)
   \<and> and_then (nb_drop ex_no_torque) nb_rename = Inl (KeyError drop_labels)"
proof -
  have d: "nb_drop ex_file = Inr ex_dropped"
    by (simp add: nb_drop_def drop_columns_def missing_labels_def labels_def ex_file_def
        ai4i_header_def drop_labels_def ex_dropped_def)
  have r: "nb_rename ex_dropped = Inr ex_renamed"
    by (simp add: nb_rename_def rename_columns_def rename_function_def rename_mapper_def
        ex_dropped_def ex_renamed_def)
  have a: "and_then (nb_drop ex_file) nb_rename = Inr ex_renamed"
    by (simp add: and_then_def d r)
  have "missing_labels drop_labels ex_no_torque = drop_labels"
    by (simp add: missing_labels_def drop_labels_def labels_def ex_no_torque_def)
  then have "nb_drop ex_no_torque = Inl (KeyError drop_labels)"
    by (simp add: nb_drop_def drop_columns_def drop_labels_def)
  then have b: "and_then (nb_drop ex_no_torque) nb_rename = Inl (KeyError drop_labels)"
    by (simp add: and_then_def)
  show ?thesis
    using a b drop_rename_commute [of ex_file] drop_rename_commute [of ex_no_torque]
    by simp
qed

text \<open>
  C1. The cleaning, end to end: the file is any frame of 10000 rows whose 14 column labels
  are distinct and are those of the data set. The drop cell then succeeds and leaves
  exactly 7 columns (Type, air temperature, process temperature, rotational speed,
  torque, tool wear, Machine failure); the rename cell succeeds, the table then has the
  five new names among its 7 columns, and no column label has a square bracket in it. The
  10000 rows are kept throughout.
\<close>

theorem cleaning_scenario:
  assumes "distinct (labels file)" and "set (labels file) = set ai4i_header"
    and "nrows file = 10000"
  shows "\<exists>s1 t1 s2 t2.
      length (columns file) = 14
    \<and> cell_drop (cell_read_csv file) = Inr s1 \<and> deref s1 = Some t1
    \<and> length (columns t1) = 7
    \<and> set (labels t1) =
        {''Type'', ''Air temperature [K]'', ''Process temperature [K]'',
         ''Rotational speed [rpm]'', ''Torque [Nm]'', ''Tool wear [min]'', ''Machine failure''}
    \<and> nrows t1 = 10000
    \<and> cell_rename s1 = Inr s2 \<and> deref s2 = Some t2
    \<and> length (columns t2) = 7
    \<and> set (labels t2) =
        {''Type'', ''Air temperature (K)'', ''Process temperature (K)'',
         ''Rotational speed (rpm)'', ''Torque (Nm)'', ''Tool wear (min)'', ''Machine failure''}
    \<and> set new_names \<subseteq> set (labels t2)
    \<and> (\<forall>n \<in> set (labels t2). \<not> has_bracket n)
    \<and> nrows t2 = 10000"
proof -
  let ?s0 = "cell_read_csv file"
  let ?t1 = "file\<lparr>columns := filter (\<lambda>c. fst c \<notin> set drop_labels) (columns file)\<rparr>"
  let ?s1 = "?s0\<lparr>objects := (objects ?s0)[var_df ?s0 := ?t1]\<rparr>"
  let ?f = "rename_function rename_mapper"
  let ?t2 = "?t1\<lparr>columns := map (\<lambda>c. (?f (fst c), snd c)) (columns ?t1)\<rparr>"
  let ?s2 = "?s1\<lparr>objects := objects ?s1 @ [?t2], var_df := length (objects ?s1)\<rparr>"
  have "length (labels file) = card (set ai4i_header)"
    using assms(1,2) distinct_card by fastforce
  then have n14: "length (columns file) = 14"
    by (simp add: labels_def ai4i_header_def)
  have "missing_labels drop_labels file = []"
    using drop_labels_in_header assms(2) by (simp add: missing_labels_Nil)
  then have d: "nb_drop file = Inr ?t1"
    by (simp add: nb_drop_def drop_columns_def)
  have c1: "cell_drop ?s0 = Inr ?s1"
    using deref_read_csv d by (rule cell_drop_eq)
  have r1: "deref ?s1 = Some ?t1"
    using deref_read_csv by (rule deref_overwrite)
  have l1: "labels ?t1 = filter (\<lambda>l. l \<notin> set drop_labels) (labels file)"
    by (rule labels_filter)
  have set1: "set (labels ?t1) = set ai4i_header - set drop_labels"
    using assms(2) by (auto simp: l1)
  have "distinct (labels ?t1)"
    using assms(1) by (simp add: l1)
  then have "length (labels ?t1) = card (set (labels ?t1))"
    by (simp add: distinct_card)
  then have len1: "length (columns ?t1) = 7"
    unfolding set1 card_kept_labels by (simp add: labels_def)
  have c2: "cell_rename ?s1 = Inr ?s2"
    using r1 nb_rename_eq by (rule cell_rename_eq)
  have r2: "deref ?s2 = Some ?t2"
    by (rule deref_new_object)
  have l2: "labels ?t2 = map ?f (labels ?t1)"
    by (rule labels_rename)
  have set2: "set (labels ?t2) = ?f ` (set ai4i_header - set drop_labels)"
    by (simp only: l2 set_map set1)
  have len2: "length (columns ?t2) = 7"
    using len1 by simp
  have new: "set new_names \<subseteq> set (labels ?t2)"
    unfolding set2 renamed_kept_labels by (simp add: new_names_def rename_mapper_def)
  have nob: "\<forall>n \<in> set (labels ?t2). \<not> has_bracket n"
    unfolding set2 using no_bracket_after_rename by blast
  have rows: "nrows ?t1 = 10000" "nrows ?t2 = 10000"
    using assms(3) by (simp_all add: nrows_def)
  show ?thesis
    using n14 c1 r1 len1 set1 [unfolded kept_labels] rows c2 r2 len2
      set2 [unfolded renamed_kept_labels] new nob
    by blast
qed

theorem cleaning_scenario_witness:
  "distinct (labels ex_big) \<and> set (labels ex_big) = set ai4i_header \<and> nrows ex_big = 10000
   \<and> (\<exists>s1 t1 s2 t2.
        cell_drop (cell_read_csv ex_big) = Inr s1 \<and> deref s1 = Some t1
      \<and> length (columns t1) = 7
      \<and> cell_rename s1 = Inr s2 \<and> deref s2 = Some t2
      \<and> length (columns t2) = 7
      \<and> (\<forall>n \<in> set (labels t2). \<not> has_bracket n))"
proof -
  have "map fst (columns ex_big) = ai4i_header"
    unfolding ex_big_def by (simp add: comp_def)
  then have l: "labels ex_big = ai4i_header"
    by (simp only: labels_def)
  have h1: "distinct (labels ex_big)"
    unfolding l by (simp add: ai4i_header_def)
  have h2: "set (labels ex_big) = set ai4i_header"
    by (simp only: l)
  have "length (index ex_big) = 10000"
    unfolding ex_big_def range_index_def by (simp del: upt_rec_numeral)
  then have h3: "nrows ex_big = 10000"
    by (simp only: nrows_def)
  obtain s1 t1 s2 t2 where
    "cell_drop (cell_read_csv ex_big) = Inr s1" "deref s1 = Some t1" "length (columns t1) = 7"
    "cell_rename s1 = Inr s2" "deref s2 = Some t2" "length (columns t2) = 7"
    "\<forall>n \<in> set (labels t2). \<not> has_bracket n"
    using cleaning_scenario [OF h1 h2 h3] by metis
  then have "\<exists>s1 t1 s2 t2.
        cell_drop (cell_read_csv ex_big) = Inr s1 \<and> deref s1 = Some t1
      \<and> length (columns t1) = 7
      \<and> cell_rename s1 = Inr s2 \<and> deref s2 = Some t2
      \<and> length (columns t2) = 7
      \<and> (\<forall>n \<in> set (labels t2). \<not> has_bracket n)"
    by (intro exI conjI)
  with h1 h2 h3 show ?thesis
    by (intro conjI)
qed

text \<open>
  C6. Assigning the intent is an annotation: for every list of names, whether they are
  columns of the table or not, the assignment succeeds on the table \<^verbatim>\<open>df\<close> refers to and
  stores the list; the row count, the row labels, the columns with their cells and their
  order are the same before and after, \<^verbatim>\<open>df\<close> refers to the same object, and no other
  object changes. Nothing compares the names with the columns.
\<close>

theorem intent_is_annotation:
  assumes "deref s = Some t"
  shows "\<exists>s' t'. cell_intent xs s = Inr s' \<and> deref s' = Some t'
           \<and> intent t' = xs
           \<and> nrows t' = nrows t \<and> index t' = index t
           \<and> columns t' = columns t \<and> labels t' = labels t \<and> cells t' = cells t
           \<and> var_df s' = var_df s \<and> length (objects s') = length (objects s)
           \<and> (\<forall>a < length (objects s). a \<noteq> var_df s \<longrightarrow> objects s' ! a = objects s ! a)"
proof -
  let ?t' = "t\<lparr>intent := xs\<rparr>"
  let ?s' = "s\<lparr>objects := (objects s)[var_df s := ?t']\<rparr>"
  have "cell_intent xs s = Inr ?s'"
    using assms by (rule cell_intent_eq)
  moreover have "deref ?s' = Some ?t'"
    using assms by (rule deref_overwrite)
  moreover have "nrows ?t' = nrows t" "labels ?t' = labels t" "cells ?t' = cells t"
    by (simp_all add: nrows_def labels_def cells_def)
  moreover have "\<forall>a < length (objects s). a \<noteq> var_df s \<longrightarrow> objects ?s' ! a = objects s ! a"
    by simp
  ultimately show ?thesis by simp
qed

theorem intent_is_annotation_witness:
  "deref (cell_read_csv ex_file) = Some ex_file
   \<and> ''Machine Failure'' \<notin> set (labels ex_file)
   \<and> (\<exists>s' t'. cell_intent [''Machine Failure''] (cell_read_csv ex_file) = Inr s'
         \<and> deref s' = Some t' \<and> intent t' = [''Machine Failure'']
         \<and> nrows t' = nrows ex_file \<and> columns t' = columns ex_file)"
proof -
  have h: "deref (cell_read_csv ex_file) = Some ex_file"
    by (rule deref_read_csv)
  have n: "''Machine Failure'' \<notin> set (labels ex_file)"
    by (simp add: labels_def ex_file_def ai4i_header_def)
  show ?thesis
    using h n intent_is_annotation [OF h, of "[''Machine Failure'']"] by blast
qed

text \<open>
  C7, as stated, fails for the rename. After the drop cell there is one object, the loaded
  table with its 7 columns. The rename cell leaves that object as it is, with the square
  brackets in its labels, and makes a second object, to which \<^verbatim>\<open>df\<close> is bound.
\<close>

theorem rename_in_place_counterexample:
  "cell_drop (cell_read_csv ex_file) = Inr \<lparr>objects = [ex_dropped], var_df = 0\<rparr>
   \<and> cell_rename \<lparr>objects = [ex_dropped], var_df = 0\<rparr>
       = Inr \<lparr>objects = [ex_dropped, ex_renamed], var_df = 1\<rparr>
   \<and> ex_dropped \<noteq> ex_renamed"
proof -
  have d: "nb_drop ex_file = Inr ex_dropped"
    by (simp add: nb_drop_def drop_columns_def missing_labels_def labels_def ex_file_def
        ai4i_header_def drop_labels_def ex_dropped_def)
  have r: "nb_rename ex_dropped = Inr ex_renamed"
    by (simp add: nb_rename_def rename_columns_def rename_function_def rename_mapper_def
        ex_dropped_def ex_renamed_def)
  have "cell_drop (cell_read_csv ex_file) = Inr \<lparr>objects = [ex_dropped], var_df = 0\<rparr>"
    by (simp add: cell_drop_def deref_read_csv d) (simp add: cell_read_csv_def)
  moreover have "cell_rename \<lparr>objects = [ex_dropped], var_df = 0\<rparr>
       = Inr \<lparr>objects = [ex_dropped, ex_renamed], var_df = 1\<rparr>"
    by (simp add: cell_rename_def deref_def r)
  moreover have "ex_dropped \<noteq> ex_renamed"
    by (simp add: ex_dropped_def ex_renamed_def)
  ultimately show ?thesis by simp
qed

text \<open>
  C7, amended. The drop mutates the table \<^verbatim>\<open>df\<close> refers to in place: no object is
  made, \<^verbatim>\<open>df\<close> refers to the same object, and that object holds the result. The rename
  is not in place: it makes a new object holding the renamed table and binds \<^verbatim>\<open>df\<close> to
  it, and every object that existed, the table it was applied to among them, is
  unchanged. An intent assignment sets the intent of the object \<^verbatim>\<open>df\<close> refers to and
  changes neither its columns nor its rows, nor any other object.
\<close>

theorem drop_in_place_rename_new_object:
  assumes "deref s = Some t"
  shows "(\<forall>t'. nb_drop t = Inr t' \<longrightarrow>
            (\<exists>s'. cell_drop s = Inr s' \<and> var_df s' = var_df s
               \<and> length (objects s') = length (objects s) \<and> deref s' = Some t'
               \<and> (\<forall>a < length (objects s). a \<noteq> var_df s \<longrightarrow> objects s' ! a = objects s ! a)))
       \<and> (\<exists>s' t'. nb_rename t = Inr t' \<and> cell_rename s = Inr s'
               \<and> var_df s' = length (objects s) \<and> var_df s' \<noteq> var_df s
               \<and> length (objects s') = Suc (length (objects s)) \<and> deref s' = Some t'
               \<and> (\<forall>a < length (objects s). objects s' ! a = objects s ! a))
       \<and> (\<exists>s'. cell_intent xs s = Inr s' \<and> var_df s' = var_df s
               \<and> length (objects s') = length (objects s)
               \<and> deref s' = Some (t\<lparr>intent := xs\<rparr>)
               \<and> columns (t\<lparr>intent := xs\<rparr>) = columns t \<and> index (t\<lparr>intent := xs\<rparr>) = index t
               \<and> (\<forall>a < length (objects s). a \<noteq> var_df s \<longrightarrow> objects s' ! a = objects s ! a))"
proof (intro conjI allI impI)
  fix t' assume d: "nb_drop t = Inr t'"
  let ?s' = "s\<lparr>objects := (objects s)[var_df s := t']\<rparr>"
  have "cell_drop s = Inr ?s'"
    using assms d by (rule cell_drop_eq)
  moreover have "deref ?s' = Some t'"
    using assms by (rule deref_overwrite)
  ultimately show "\<exists>s'. cell_drop s = Inr s' \<and> var_df s' = var_df s
               \<and> length (objects s') = length (objects s) \<and> deref s' = Some t'
               \<and> (\<forall>a < length (objects s). a \<noteq> var_df s \<longrightarrow> objects s' ! a = objects s ! a)"
    by simp
next
  let ?t' = "t\<lparr>columns := map (\<lambda>c. (rename_function rename_mapper (fst c), snd c)) (columns t)\<rparr>"
  let ?s' = "s\<lparr>objects := objects s @ [?t'], var_df := length (objects s)\<rparr>"
  have lt: "var_df s < length (objects s)"
    using assms by (simp add: deref_SomeD)
  have "cell_rename s = Inr ?s'"
    using assms nb_rename_eq by (rule cell_rename_eq)
  moreover have "deref ?s' = Some ?t'"
    by (rule deref_new_object)
  moreover have "\<forall>a < length (objects s). objects ?s' ! a = objects s ! a"
    by (simp add: nth_append)
  ultimately show "\<exists>s' t'. nb_rename t = Inr t' \<and> cell_rename s = Inr s'
               \<and> var_df s' = length (objects s) \<and> var_df s' \<noteq> var_df s
               \<and> length (objects s') = Suc (length (objects s)) \<and> deref s' = Some t'
               \<and> (\<forall>a < length (objects s). objects s' ! a = objects s ! a)"
    using lt nb_rename_eq [of t] by auto
next
  let ?s' = "s\<lparr>objects := (objects s)[var_df s := t\<lparr>intent := xs\<rparr>]\<rparr>"
  have "cell_intent xs s = Inr ?s'"
    using assms by (rule cell_intent_eq)
  moreover have "deref ?s' = Some (t\<lparr>intent := xs\<rparr>)"
    using assms by (rule deref_overwrite)
  ultimately show "\<exists>s'. cell_intent xs s = Inr s' \<and> var_df s' = var_df s
               \<and> length (objects s') = length (objects s)
               \<and> deref s' = Some (t\<lparr>intent := xs\<rparr>)
               \<and> columns (t\<lparr>intent := xs\<rparr>) = columns t \<and> index (t\<lparr>intent := xs\<rparr>) = index t
               \<and> (\<forall>a < length (objects s). a \<noteq> var_df s \<longrightarrow> objects s' ! a = objects s ! a)"
    by simp
qed

theorem drop_in_place_rename_new_object_witness:
  "deref (cell_read_csv ex_file) = Some ex_file
   \<and> (\<exists>s' t'. nb_rename ex_file = Inr t' \<and> cell_rename (cell_read_csv ex_file) = Inr s'
         \<and> var_df s' \<noteq> var_df (cell_read_csv ex_file)
         \<and> deref s' = Some t'
         \<and> (\<forall>a < length (objects (cell_read_csv ex_file)).
               objects s' ! a = objects (cell_read_csv ex_file) ! a))
   \<and> (\<exists>s'. cell_drop (cell_read_csv ex_file) = Inr s'
         \<and> var_df s' = var_df (cell_read_csv ex_file) \<and> deref s' = Some ex_dropped)"
proof -
  have h: "deref (cell_read_csv ex_file) = Some ex_file"
    by (rule deref_read_csv)
  have d: "nb_drop ex_file = Inr ex_dropped"
    by (simp add: nb_drop_def drop_columns_def missing_labels_def labels_def ex_file_def
        ai4i_header_def drop_labels_def ex_dropped_def)
  note w = drop_in_place_rename_new_object [OF h, of "[]"]
  from w have "\<exists>s'. cell_drop (cell_read_csv ex_file) = Inr s'
         \<and> var_df s' = var_df (cell_read_csv ex_file) \<and> deref s' = Some ex_dropped"
    using d by blast
  moreover from w have "\<exists>s' t'. nb_rename ex_file = Inr t'
         \<and> cell_rename (cell_read_csv ex_file) = Inr s'
         \<and> var_df s' \<noteq> var_df (cell_read_csv ex_file)
         \<and> deref s' = Some t'
         \<and> (\<forall>a < length (objects (cell_read_csv ex_file)).
               objects s' ! a = objects (cell_read_csv ex_file) ! a)"
    by blast
  ultimately show ?thesis
    using h by (intro conjI)
qed

text \<open>
  C10. Every name assigned as intent is a column when its assignment runs: on a file with
  the labels of the data set the drop and rename cells succeed, Type is a label of the
  table \<^verbatim>\<open>df\<close> refers to when the first intent cell runs, and Machine failure is one when
  the second runs. Both names are labels of the data set, neither is among the seven
  dropped labels, and neither is a key of the rename mapping.
\<close>

theorem intent_names_are_columns:
  assumes "set (labels file) = set ai4i_header"
  shows "\<exists>s1 s2 t2 s3 t3 s4.
      cell_drop (cell_read_csv file) = Inr s1 \<and> cell_rename s1 = Inr s2
    \<and> deref s2 = Some t2 \<and> set intent_type \<subseteq> set (labels t2)
    \<and> cell_intent intent_type s2 = Inr s3
    \<and> deref s3 = Some t3 \<and> set intent_failure \<subseteq> set (labels t3)
    \<and> cell_intent intent_failure s3 = Inr s4
    \<and> set (intent_type @ intent_failure) \<subseteq> set ai4i_header
    \<and> set (intent_type @ intent_failure) \<inter> set drop_labels = {}
    \<and> set (intent_type @ intent_failure) \<inter> set old_names = {}"
proof -
  let ?s0 = "cell_read_csv file"
  let ?t1 = "file\<lparr>columns := filter (\<lambda>c. fst c \<notin> set drop_labels) (columns file)\<rparr>"
  let ?s1 = "?s0\<lparr>objects := (objects ?s0)[var_df ?s0 := ?t1]\<rparr>"
  let ?f = "rename_function rename_mapper"
  let ?t2 = "?t1\<lparr>columns := map (\<lambda>c. (?f (fst c), snd c)) (columns ?t1)\<rparr>"
  let ?s2 = "?s1\<lparr>objects := objects ?s1 @ [?t2], var_df := length (objects ?s1)\<rparr>"
  let ?t3 = "?t2\<lparr>intent := intent_type\<rparr>"
  let ?s3 = "?s2\<lparr>objects := (objects ?s2)[var_df ?s2 := ?t3]\<rparr>"
  let ?t4 = "?t3\<lparr>intent := intent_failure\<rparr>"
  let ?s4 = "?s3\<lparr>objects := (objects ?s3)[var_df ?s3 := ?t4]\<rparr>"
  have "missing_labels drop_labels file = []"
    using drop_labels_in_header assms by (simp add: missing_labels_Nil)
  then have d: "nb_drop file = Inr ?t1"
    by (simp add: nb_drop_def drop_columns_def)
  have c1: "cell_drop ?s0 = Inr ?s1"
    using deref_read_csv d by (rule cell_drop_eq)
  have r1: "deref ?s1 = Some ?t1"
    using deref_read_csv by (rule deref_overwrite)
  have c2: "cell_rename ?s1 = Inr ?s2"
    using r1 nb_rename_eq by (rule cell_rename_eq)
  have r2: "deref ?s2 = Some ?t2"
    by (rule deref_new_object)
  have "labels ?t1 = filter (\<lambda>l. l \<notin> set drop_labels) (labels file)"
    by (rule labels_filter)
  then have set1: "set (labels ?t1) = set ai4i_header - set drop_labels"
    using assms by auto
  have "labels ?t2 = map ?f (labels ?t1)"
    by (rule labels_rename)
  then have set2: "set (labels ?t2) = ?f ` (set ai4i_header - set drop_labels)"
    by (simp only: set_map set1)
  have i2: "set intent_type \<subseteq> set (labels ?t2)"
    unfolding set2 renamed_kept_labels by (simp add: intent_type_def)
  have c3: "cell_intent intent_type ?s2 = Inr ?s3"
    using r2 by (rule cell_intent_eq)
  have r3: "deref ?s3 = Some ?t3"
    using r2 by (rule deref_overwrite)
  have l3: "labels ?t3 = labels ?t2"
    by (simp add: labels_def)
  have "set intent_failure \<subseteq> set (labels ?t2)"
    unfolding set2 renamed_kept_labels by (simp add: intent_failure_def)
  then have i3: "set intent_failure \<subseteq> set (labels ?t3)"
    by (simp only: l3)
  have c4: "cell_intent intent_failure ?s3 = Inr ?s4"
    using r3 by (rule cell_intent_eq)
  have st: "set (intent_type @ intent_failure) \<subseteq> set ai4i_header"
    "set (intent_type @ intent_failure) \<inter> set drop_labels = {}"
    "set (intent_type @ intent_failure) \<inter> set old_names = {}"
    by (simp_all add: intent_type_def intent_failure_def ai4i_header_def drop_labels_def
        old_names_def rename_mapper_def)
  from c1 c2 r2 i2 c3 r3 i3 c4 st show ?thesis
    by (intro exI conjI)
qed

theorem intent_names_are_columns_witness:
  "set (labels ex_file) = set ai4i_header
   \<and> (\<exists>s1 s2 t2 s3 t3 s4.
      cell_drop (cell_read_csv ex_file) = Inr s1 \<and> cell_rename s1 = Inr s2
    \<and> deref s2 = Some t2 \<and> set intent_type \<subseteq> set (labels t2)
    \<and> cell_intent intent_type s2 = Inr s3
    \<and> deref s3 = Some t3 \<and> set intent_failure \<subseteq> set (labels t3)
    \<and> cell_intent intent_failure s3 = Inr s4)"
proof -
  have "map fst (columns ex_file) = ai4i_header"
    unfolding ex_file_def by (simp add: comp_def)
  then have h: "set (labels ex_file) = set ai4i_header"
    by (simp only: labels_def)
  obtain s1 s2 t2 s3 t3 s4 where
    "cell_drop (cell_read_csv ex_file) = Inr s1" "cell_rename s1 = Inr s2"
    "deref s2 = Some t2" "set intent_type \<subseteq> set (labels t2)"
    "cell_intent intent_type s2 = Inr s3"
    "deref s3 = Some t3" "set intent_failure \<subseteq> set (labels t3)"
    "cell_intent intent_failure s3 = Inr s4"
    using intent_names_are_columns [OF h] by metis
  then have "\<exists>s1 s2 t2 s3 t3 s4.
      cell_drop (cell_read_csv ex_file) = Inr s1 \<and> cell_rename s1 = Inr s2
    \<and> deref s2 = Some t2 \<and> set intent_type \<subseteq> set (labels t2)
    \<and> cell_intent intent_type s2 = Inr s3
    \<and> deref s3 = Some t3 \<and> set intent_failure \<subseteq> set (labels t3)
    \<and> cell_intent intent_failure s3 = Inr s4"
    by (intro exI conjI)
  with h show ?thesis
    by (intro conjI)
qed

end
